theory Spec2Isabelle
  imports Main "HOL-Library.Word" "HOL-Library.Sublist"
begin

unbundle bit_operations_syntax

section \<open>Bytes and text\<close>

text \<open>
  Python \<open>bytes\<close> and \<open>bytearray\<close> values are lists of 8-bit words. A Python \<open>str\<close> that
  the engine only ever encodes (the passphrase, the configured marker, the salt) is
  represented by its UTF-8 encoding; a \<open>str\<close> that is only compared and searched (a path,
  an exclusion pattern) is a \<open>string\<close>.
\<close>

type_synonym byte = "8 word"
type_synonym bytes = "byte list"

definition ascii :: "string \<Rightarrow> bytes" where
  "ascii s = map of_char s"

text \<open>The separator \<open>b'::'\<close>, the version field \<open>b'v1.0'\<close> and the byte of one colon.\<close>

definition colon :: byte where
  "colon = 0x3A"

definition sep :: bytes where
  "sep = [colon, colon]"

definition version :: bytes where
  "version = [0x76, 0x31, 0x2E, 0x30]"

text \<open>
  \<open>b.decode('utf-8')\<close> raises \<open>UnicodeDecodeError\<close> unless \<open>b\<close> is well-formed UTF-8
  (no overlong form, no surrogate, nothing above U+10FFFF). Decoding is the inverse of
  encoding, so on a text represented by its encoding only the well-formedness test is left.
\<close>

definition cont :: "byte \<Rightarrow> bool" where
  "cont b = (0x80 \<le> b \<and> b \<le> 0xBF)"

fun utf8_valid :: "bytes \<Rightarrow> bool" where
  "utf8_valid [] = True"
| "utf8_valid (b0 # bs) =
     (if b0 \<le> 0x7F then utf8_valid bs
      else if 0xC2 \<le> b0 \<and> b0 \<le> 0xDF then
        (case bs of b1 # r \<Rightarrow> cont b1 \<and> utf8_valid r | _ \<Rightarrow> False)
      else if 0xE0 \<le> b0 \<and> b0 \<le> 0xEF then
        (case bs of b1 # b2 # r \<Rightarrow>
            cont b1 \<and> cont b2 \<and> (if b0 = 0xE0 then 0xA0 \<le> b1 else True)
            \<and> (if b0 = 0xED then b1 \<le> 0x9F else True) \<and> utf8_valid r
         | _ \<Rightarrow> False)
      else if 0xF0 \<le> b0 \<and> b0 \<le> 0xF4 then
        (case bs of b1 # b2 # b3 # r \<Rightarrow>
            cont b1 \<and> cont b2 \<and> cont b3 \<and> (if b0 = 0xF0 then 0x90 \<le> b1 else True)
            \<and> (if b0 = 0xF4 then b1 \<le> 0x8F else True) \<and> utf8_valid r
         | _ \<Rightarrow> False)
      else False)"

section \<open>Configuration\<close>

text \<open>
  The keys of \<open>config.json\<close> that the codec reads. \<open>encryption_marker\<close> holds the UTF-8
  encoding of the configured marker text.
\<close>

record config =
  encryption_marker :: bytes
  exclude_patterns :: "string list"
  delete_original_after_encrypt :: bool
  dry_run :: bool

definition default_config :: config where
  "default_config =
     \<lparr> encryption_marker = ascii ''ARTIFACT_SHIELD_ENCRYPTED'',
       exclude_patterns = [''.shield'', ''backups'', ''scripts/shield'', ''node_modules'', ''.git''],
       delete_original_after_encrypt = False,
       dry_run = False \<rparr>"

section \<open>Key derivation\<close>

text \<open>
  The three digests come from Python's \<open>hashlib\<close>, which is not part of the repository:
  they are parameters of the model. \<open>blake2b\<close> stands for \<open>blake2b(_, digest_size=64)\<close>.
  All that the cipher needs of them is the size of the last digest, 64 bytes.
\<close>

record hashlib =
  sha3_512 :: "bytes \<Rightarrow> bytes"
  blake2b :: "bytes \<Rightarrow> bytes"
  sha512 :: "bytes \<Rightarrow> bytes"

definition digest_size_ok :: "hashlib \<Rightarrow> bool" where
  "digest_size_ok h = (\<forall>x. length (sha512 h x) = 64)"

definition derive_encryption_key :: "hashlib \<Rightarrow> bytes \<Rightarrow> bytes \<Rightarrow> bytes" where
  "derive_encryption_key h user_passphrase file_salt =
     (let combined = user_passphrase @ sep @ file_salt;
          round1 = sha3_512 h combined;
          round2 = blake2b h round1;
          round3 = sha512 h round2
      in round3)"

section \<open>The three XOR layers\<close>

text \<open>
  Each layer is a \<open>for\<close> loop that updates the buffer in place, one index at a time; the
  loop is a \<open>fold\<close> over its index sequence. Layer 2 walks the indices downwards.
  \<open>key[j % key_length]\<close> raises \<open>ZeroDivisionError\<close> for an empty key; the callers below
  check that case before they run a layer.
\<close>

definition xor_forward :: "bytes \<Rightarrow> bytes \<Rightarrow> bytes" where
  "xor_forward key buf =
     fold (\<lambda>i b. b[i := b ! i XOR key ! (i mod length key)]) [0..<length buf] buf"

definition xor_reverse :: "bytes \<Rightarrow> bytes \<Rightarrow> bytes" where
  "xor_reverse key buf =
     fold (\<lambda>i b. b[i := b ! i XOR key ! ((length b - i - 1) mod length key)])
       (rev [0..<length buf]) buf"

definition xor_position :: "bytes \<Rightarrow> bytes" where
  "xor_position buf =
     fold (\<lambda>i b. b[i := b ! i XOR of_nat ((i + 1) mod 256)]) [0..<length buf] buf"

section \<open>Package framing\<close>

datatype exn = ZeroDivisionError

text \<open>
  \<open>secrets.token_hex(32)\<close> returns 64 lower-case hexadecimal digits; the drawn salt is an
  argument of the model, and \<open>is_token_hex32\<close> says what a draw looks like.
\<close>

definition hex_digit :: "byte \<Rightarrow> bool" where
  "hex_digit b = ((0x30 \<le> b \<and> b \<le> 0x39) \<or> (0x61 \<le> b \<and> b \<le> 0x66))"

definition is_token_hex32 :: "bytes \<Rightarrow> bool" where
  "is_token_hex32 s = (length s = 64 \<and> list_all hex_digit s)"

definition encrypt_data :: "hashlib \<Rightarrow> config \<Rightarrow> bytes \<Rightarrow> bytes \<Rightarrow> bytes \<Rightarrow> exn + bytes" where
  "encrypt_data h cfg file_salt plaintext_bytes user_key =
     (let encryption_key = derive_encryption_key h user_key file_salt;
          key_length = length encryption_key
      in if key_length = 0 \<and> plaintext_bytes \<noteq> [] then Inl ZeroDivisionError
         else
           (let encrypted = xor_forward encryption_key plaintext_bytes;
                encrypted = xor_reverse encryption_key encrypted;
                encrypted = xor_position encrypted;
                marker = encryption_marker cfg;
                package = marker @ sep @ version @ sep @ file_salt @ sep @ encrypted
            in Inr package))"

text \<open>
  \<open>s.split(b'::', 3)\<close>: cut at the leftmost occurrence of the separator, at most three
  times; what is left after the third cut is the last part, whatever it contains.
\<close>

fun cut :: "bytes \<Rightarrow> (bytes \<times> bytes) option" where
  "cut [] = None"
| "cut (x # xs) =
     (if prefix sep (x # xs) then Some ([], drop (length sep) (x # xs))
      else (case cut xs of None \<Rightarrow> None | Some (a, r) \<Rightarrow> Some (x # a, r)))"

fun split_max :: "nat \<Rightarrow> bytes \<Rightarrow> bytes list" where
  "split_max 0 s = [s]"
| "split_max (Suc n) s = (case cut s of None \<Rightarrow> [s] | Some (a, r) \<Rightarrow> a # split_max n r)"

text \<open>
  Every exception inside \<open>decrypt_data\<close> is caught and turned into \<open>None\<close>: a marker or
  salt field that is not UTF-8, and the division by the length of an empty key.
\<close>

definition decrypt_data :: "hashlib \<Rightarrow> config \<Rightarrow> bytes \<Rightarrow> bytes \<Rightarrow> bytes option" where
  "decrypt_data h cfg encrypted_package user_key =
     (case split_max 3 encrypted_package of
        [marker, vers, salt_bytes, encrypted] \<Rightarrow>
          if \<not> utf8_valid marker then None
          else if marker \<noteq> encryption_marker cfg then None
          else if \<not> utf8_valid salt_bytes then None
          else
            (let encryption_key = derive_encryption_key h user_key salt_bytes;
                 key_length = length encryption_key
             in if key_length = 0 \<and> encrypted \<noteq> [] then None
                else
                  (let decrypted = xor_position encrypted;
                       decrypted = xor_reverse encryption_key decrypted;
                       decrypted = xor_forward encryption_key decrypted
                   in Some decrypted))
      | _ \<Rightarrow> None)"

text \<open>
  The composition the round-trip properties speak about: encrypt under \<open>k1\<close> with the
  salt drawn, then decrypt the package under \<open>k2\<close>. \<open>None\<close> also stands for an
  encryption that raised.
\<close>

definition recover :: "hashlib \<Rightarrow> config \<Rightarrow> bytes \<Rightarrow> bytes \<Rightarrow> bytes \<Rightarrow> bytes \<Rightarrow> bytes option" where
  "recover h cfg file_salt plaintext_bytes k1 k2 =
     (case encrypt_data h cfg file_salt plaintext_bytes k1 of
        Inl e \<Rightarrow> None
      | Inr package \<Rightarrow> decrypt_data h cfg package k2)"

section \<open>Files\<close>

text \<open>
  The machine the scripts run on: the regular files by path, the scratch directory that
  \<open>tempfile.mkdtemp\<close> hands to the batch script (fresh and apart from every other path, so
  a map of its own, keyed by file name), the state of the version-control collaborator
  (index, commits, whether they were pushed) and the number of salts drawn so far. The
  audit log is a file outside the working tree whose writes never fail an operation and
  that nothing reads back; it is not part of the model.
\<close>

datatype change = Add string | Rm string

record world =
  files :: "string \<rightharpoonup> bytes"
  tmpdir :: "string \<rightharpoonup> bytes"
  staged :: "change list"
  commits :: "change list list"
  pushed :: bool
  draws :: nat

definition should_exclude :: "config \<Rightarrow> string \<Rightarrow> bool" where
  "should_exclude cfg file_str =
     (list_ex (\<lambda>pattern. sublist pattern file_str) (exclude_patterns cfg)
      \<or> suffix ''quantum_shield.py'' file_str)"

definition is_encrypted :: "config \<Rightarrow> world \<Rightarrow> string \<Rightarrow> bool" where
  "is_encrypted cfg w file_path =
     (case files w file_path of
        None \<Rightarrow> False
      | Some content \<Rightarrow> sublist (encryption_marker cfg) (take 100 content))"

text \<open>
  \<open>encrypt_file\<close> catches every exception and answers \<open>False\<close>. The artifact is written
  beside the file, under the file's name followed by \<open>.enc\<close>. \<open>token_hex n\<close> is the
  \<open>n\<close>-th salt that \<open>secrets.token_hex(32)\<close> returns.
\<close>

definition encrypt_file ::
    "hashlib \<Rightarrow> config \<Rightarrow> (nat \<Rightarrow> bytes) \<Rightarrow> world \<Rightarrow> string \<Rightarrow> bytes \<Rightarrow> bool \<times> world" where
  "encrypt_file h cfg token_hex w file_path user_key =
     (if should_exclude cfg file_path then (False, w)
      else if is_encrypted cfg w file_path then (True, w)
      else
        (case files w file_path of
           None \<Rightarrow> (False, w)
         | Some plaintext \<Rightarrow>
             (let file_salt = token_hex (draws w);
                  w = w\<lparr>draws := draws w + 1\<rparr>
              in case encrypt_data h cfg file_salt plaintext user_key of
                   Inl e \<Rightarrow> (False, w)
                 | Inr encrypted \<Rightarrow>
                     (let encrypted_path = file_path @ ''.enc'';
                          w = w\<lparr>files := (files w)(encrypted_path \<mapsto> encrypted)\<rparr>;
                          w = (if delete_original_after_encrypt cfg \<and> \<not> dry_run cfg
                               then w\<lparr>files := (files w)(file_path := None)\<rparr> else w)
                      in (True, w)))))"

text \<open>
  \<open>file_path.parent / file_path.stem\<close> for a path that ends in \<open>.enc\<close>. The stem is the
  last component without its suffix \<open>.enc\<close>, except for a file named just \<open>.enc\<close>, which
  has no suffix. For a file named \<open>..enc\<close> or \<open>...enc\<close> the stem is \<open>.\<close> or \<open>..\<close>: the
  path then names a directory, opening it for writing raises, and \<open>decrypt_file\<close> answers
  \<open>False\<close>.
\<close>

definition stem :: "string \<Rightarrow> string" where
  "stem file_path =
     (let last_part = rev (takeWhile (\<lambda>c. c \<noteq> CHR ''/'') (rev file_path))
      in if last_part = ''.enc'' then last_part else take (length last_part - 4) last_part)"

definition original_path :: "string \<Rightarrow> string" where
  "original_path file_path =
     (let last_part = rev (takeWhile (\<lambda>c. c \<noteq> CHR ''/'') (rev file_path))
      in take (length file_path - length last_part) file_path @ stem file_path)"

definition decrypt_file :: "hashlib \<Rightarrow> config \<Rightarrow> world \<Rightarrow> string \<Rightarrow> bytes \<Rightarrow> bool \<times> world" where
  "decrypt_file h cfg w file_path user_key =
     (if \<not> suffix ''.enc'' file_path then (False, w)
      else
        (case files w file_path of
           None \<Rightarrow> (False, w)
         | Some encrypted \<Rightarrow>
             (case decrypt_data h cfg encrypted user_key of
                None \<Rightarrow> (False, w)
              | Some plaintext \<Rightarrow>
                  if stem file_path = ''.'' \<or> stem file_path = ''..'' then (False, w)
                  else
                    (let w = w\<lparr>files := (files w)(original_path file_path \<mapsto> plaintext)\<rparr>;
                         w = w\<lparr>files := (files w)(file_path := None)\<rparr>
                     in (True, w)))))"

section \<open>The version-control collaborator\<close>

text \<open>
  The batch script shells out to git, which is not part of the repository. Each command
  is modelled by what it does when it succeeds: \<open>git add\<close> and \<open>git rm -f\<close> record a
  change in the index, and \<open>git rm -f\<close> also deletes the file from the working tree;
  \<open>git reset\<close> empties the index and leaves the working tree alone; \<open>git commit\<close> turns
  the index into a commit; \<open>git push\<close> publishes the commits. With nothing staged
  \<open>git commit\<close> exits with a non-zero status, which \<open>check=True\<close> turns into an
  exception: \<open>git_commit\<close> is then \<open>None\<close>.
\<close>

definition git_add :: "world \<Rightarrow> string \<Rightarrow> world" where
  "git_add w p = w\<lparr>staged := staged w @ [Add p]\<rparr>"

definition git_rm_f :: "world \<Rightarrow> string \<Rightarrow> world" where
  "git_rm_f w p = w\<lparr>files := (files w)(p := None), staged := staged w @ [Rm p]\<rparr>"

definition git_reset :: "world \<Rightarrow> world" where
  "git_reset w = w\<lparr>staged := []\<rparr>"

definition git_commit :: "world \<Rightarrow> world option" where
  "git_commit w =
     (if staged w = [] then None
      else Some (w\<lparr>commits := commits w @ [staged w], staged := []\<rparr>))"

definition git_push :: "world \<Rightarrow> world" where
  "git_push w = w\<lparr>pushed := True\<rparr>"

section \<open>The batch script\<close>

text \<open>
  Paths of the manifest are relative to \<open>ROOT\<close> and normalised; \<open>ROOT / p\<close> is then the
  text of \<open>ROOT\<close>, a slash and \<open>p\<close>, \<open>p.name\<close> is what follows the last slash, and
  \<open>full.with_suffix(full.suffix + '.enc')\<close> is the text of \<open>full\<close> followed by \<open>.enc\<close>.
\<close>

record item =
  path :: string
  sensitive :: bool

definition join :: "string \<Rightarrow> string \<Rightarrow> string" where
  "join root p = root @ ''/'' @ p"

definition name :: "string \<Rightarrow> string" where
  "name p = rev (takeWhile (\<lambda>c. c \<noteq> CHR ''/'') (rev p))"

definition relative_to :: "string \<Rightarrow> string \<Rightarrow> string" where
  "relative_to root full = drop (length root + 1) full"

text \<open>
  The encryption loop (the \<open>for p in sensitive\<close> of the script). It returns the world,
  \<open>orig_copies\<close> and the flag \<open>failed\<close>; a \<open>break\<close> is a return with the flag set.
\<close>

fun encrypt_loop ::
    "hashlib \<Rightarrow> config \<Rightarrow> (nat \<Rightarrow> bytes) \<Rightarrow> string \<Rightarrow> bytes \<Rightarrow> string list \<Rightarrow>
     world \<Rightarrow> (string \<times> string) list \<Rightarrow> world \<times> (string \<times> string) list \<times> bool" where
  "encrypt_loop h cfg token_hex root passphrase [] w orig_copies = (w, orig_copies, False)"
| "encrypt_loop h cfg token_hex root passphrase (p # ps) w orig_copies =
     (let full = join root p in
      case files w full of
        None \<Rightarrow> encrypt_loop h cfg token_hex root passphrase ps w orig_copies
      | Some original \<Rightarrow>
          (let tmp = name p;
               w = w\<lparr>tmpdir := (tmpdir w)(tmp \<mapsto> original)\<rparr>;
               orig_copies = orig_copies @ [(full, tmp)];
               (ok, w) = encrypt_file h cfg token_hex w full passphrase
           in if \<not> ok then (w, orig_copies, True)
              else
                (let enc_path = full @ ''.enc'' in
                 if files w enc_path = None then (w, orig_copies, True)
                 else
                   (let w = git_add w enc_path;
                        w = git_rm_f w full
                    in encrypt_loop h cfg token_hex root passphrase ps w orig_copies))))"

text \<open>The rollback branch: unstage everything, then put back each plaintext that is gone.\<close>

fun restore_originals :: "(string \<times> string) list \<Rightarrow> world \<Rightarrow> world" where
  "restore_originals [] w = w"
| "restore_originals ((full, tmp) # rest) w =
     restore_originals rest
       (case files w full of
          Some present \<Rightarrow> w
        | None \<Rightarrow>
            (case tmpdir w tmp of
               None \<Rightarrow> w
             | Some original \<Rightarrow> w\<lparr>files := (files w)(full \<mapsto> original)\<rparr>))"

definition rollback :: "(string \<times> string) list \<Rightarrow> world \<Rightarrow> world" where
  "rollback orig_copies w = restore_originals orig_copies (git_reset w)"

text \<open>
  The verification loop. \<open>backup\<close> is the extracted snapshot, by path relative to
  \<open>ROOT\<close>. \<open>shutil.copy2\<close> of a file that is not there raises, and nothing catches it.
\<close>

datatype verdict = Passed | Failed | Raised

fun verify_loop ::
    "hashlib \<Rightarrow> config \<Rightarrow> string \<Rightarrow> (string \<rightharpoonup> bytes) \<Rightarrow> bytes \<Rightarrow>
     (string \<times> string) list \<Rightarrow> world \<Rightarrow> world \<times> verdict" where
  "verify_loop h cfg root backup passphrase [] w = (w, Passed)"
| "verify_loop h cfg root backup passphrase ((full, tmp) # rest) w =
     (let rel = relative_to root full in
      case backup rel of
        None \<Rightarrow> verify_loop h cfg root backup passphrase rest w
      | Some orig_in_backup \<Rightarrow>
          (let enc_path = full @ ''.enc'';
               test_enc = enc_path @ ''.tmp''
           in case files w enc_path of
                None \<Rightarrow> (w, Raised)
              | Some artifact \<Rightarrow>
                  (let w = w\<lparr>files := (files w)(test_enc \<mapsto> artifact)\<rparr>;
                       (ok, w) = decrypt_file h cfg w test_enc passphrase
                   in if \<not> ok then (w, Failed)
                      else
                        (case files w full of
                           None \<Rightarrow> (w, Failed)
                         | Some restored \<Rightarrow>
                             if restored = orig_in_backup then
                               (case tmpdir w tmp of
                                  None \<Rightarrow> (w, Raised)
                                | Some original \<Rightarrow>
                                    verify_loop h cfg root backup passphrase rest
                                      (w\<lparr>files := (files w)(full \<mapsto> original)\<rparr>))
                             else (w, Failed)))))"

definition cleanup :: "world \<Rightarrow> world" where
  "cleanup w = w\<lparr>tmpdir := Map.empty\<rparr>"

text \<open>
  The whole script, from the passphrase check to the exit code. \<open>passphrase = []\<close> stands
  for a passphrase that is missing or empty; \<open>backups\<close> is the newest snapshot that the
  backup collaborator left, if any. The \<open>finally\<close> clause runs on every path that entered
  the \<open>try\<close>, also when \<open>git commit\<close> or a copy raises; the interpreter then exits with
  code 1.
\<close>

definition run ::
    "hashlib \<Rightarrow> config \<Rightarrow> (nat \<Rightarrow> bytes) \<Rightarrow> string \<Rightarrow> (string \<rightharpoonup> bytes) option \<Rightarrow> bytes \<Rightarrow>
     item list \<Rightarrow> world \<Rightarrow> nat \<times> world" where
  "run h cfg token_hex root backups passphrase m w =
     (if passphrase = [] then (1, w)
      else
        (case backups of
           None \<Rightarrow> (1, w)
         | Some backup_zip \<Rightarrow>
             (let sensitive_paths = map path (filter sensitive m) in
              if sensitive_paths = [] then (0, w)
              else
                (let cfg = cfg\<lparr>delete_original_after_encrypt := False, dry_run := False\<rparr>;
                     w = w\<lparr>tmpdir := Map.empty\<rparr>;
                     (w, orig_copies, failed) =
                        encrypt_loop h cfg token_hex root passphrase sensitive_paths w []
                 in if failed then (1, cleanup (rollback orig_copies w))
                    else
                      (case git_commit w of
                         None \<Rightarrow> (1, cleanup w)
                       | Some w \<Rightarrow>
                           (let w = git_push w;
                                (w, v) =
                                   verify_loop h cfg root backup_zip passphrase orig_copies w
                            in (if v = Passed then 0 else 1, cleanup w)))))))"

section \<open>Stand-ins for the parameters\<close>

text \<open>
  A digest function of the right size and a salt of the right shape, for running the
  model on concrete inputs. The digest reads the first byte and the length of its input,
  which is enough to give the two passphrases used below different keys; no general
  result depends on which digest it is.
\<close>

definition sample_digest :: "bytes \<Rightarrow> bytes" where
  "sample_digest x =
     map (\<lambda>i. of_nat i + 2 * (case x of [] \<Rightarrow> 0 | b # _ \<Rightarrow> b) + of_nat (length x))
       [0..<64]"

definition sample_hashlib :: hashlib where
  "sample_hashlib =
     \<lparr> sha3_512 = sample_digest, blake2b = sample_digest, sha512 = sample_digest \<rparr>"

definition sample_salt :: bytes where
  "sample_salt = replicate 64 0x61"

definition empty_world :: world where
  "empty_world =
     \<lparr> files = Map.empty, tmpdir = Map.empty, staged = [], commits = [], pushed = False,
       draws = 0 \<rparr>"


text \<open>
  What layers 1 and 2 together XOR into the byte at index \<open>i\<close> of a buffer of \<open>n\<close>
  bytes, and a configuration whose marker contains the separator.
\<close>

definition keystream :: "bytes \<Rightarrow> nat \<Rightarrow> nat \<Rightarrow> byte" where
  "keystream key n i = key ! (i mod length key) XOR key ! ((n - i - 1) mod length key)"

definition colon_config :: config where
  "colon_config = default_config\<lparr>encryption_marker := ascii ''SHIELD::ENCRYPTED''\<rparr>"

text \<open>
  A repository root, a salt supply and a passphrase for running the batch script, and the
  working trees, manifests and snapshots of the runs examined below.
\<close>

definition repo_root :: string where
  "repo_root = ''/repo''"

definition salts :: "nat \<Rightarrow> bytes" where
  "salts n = sample_salt"

definition passphrase_a :: bytes where
  "passphrase_a = ascii ''correct-horse-battery-staple12''"

definition passphrase_b :: bytes where
  "passphrase_b = ascii ''wrong-horse-battery-staple-12''"

text \<open>One sensitive file \<open>secrets/a.txt\<close> holding \<open>hello world\<close>, and its snapshot.\<close>

definition manifest_a :: "item list" where
  "manifest_a = [\<lparr>path = ''secrets/a.txt'', sensitive = True\<rparr>]"

definition world_a :: world where
  "world_a = empty_world\<lparr>files := [''/repo/secrets/a.txt'' \<mapsto> ascii ''hello world'']\<rparr>"

definition backup_a :: "string \<rightharpoonup> bytes" where
  "backup_a = [''secrets/a.txt'' \<mapsto> ascii ''hello world'']"

text \<open>The same tree under a manifest that first names a file that does not exist.\<close>

definition manifest_ghost :: "item list" where
  "manifest_ghost =
     [\<lparr>path = ''ghost.txt'', sensitive = True\<rparr>, \<lparr>path = ''secrets/a.txt'', sensitive = True\<rparr>]"

text \<open>
  Two sensitive files of the same name in two directories, followed by a file under an
  excluded directory, which \<open>encrypt_file\<close> refuses.
\<close>

definition manifest_keys :: "item list" where
  "manifest_keys =
     [\<lparr>path = ''prod/key.txt'', sensitive = True\<rparr>,
      \<lparr>path = ''test/key.txt'', sensitive = True\<rparr>,
      \<lparr>path = ''backups/key.bak'', sensitive = True\<rparr>]"

definition world_keys :: world where
  "world_keys = empty_world\<lparr>files :=
     [''/repo/prod/key.txt'' \<mapsto> ascii ''PROD'',
      ''/repo/test/key.txt'' \<mapsto> ascii ''TEST'',
      ''/repo/backups/key.bak'' \<mapsto> ascii ''OLD'']\<rparr>"

definition backup_keys :: "string \<rightharpoonup> bytes" where
  "backup_keys =
     [''prod/key.txt'' \<mapsto> ascii ''PROD'', ''test/key.txt'' \<mapsto> ascii ''TEST'',
      ''backups/key.bak'' \<mapsto> ascii ''OLD'']"

text \<open>
  An artifact under an excluded directory, and a document that quotes the marker.
\<close>

definition world_marked :: world where
  "world_marked = empty_world\<lparr>files :=
     [''/repo/backups/a.txt.enc'' \<mapsto> encryption_marker default_config @ sep @ version,
      ''/repo/secrets/a.txt.enc'' \<mapsto> encryption_marker default_config @ sep @ version,
      ''/repo/docs/shield.md'' \<mapsto>
         ascii ''Protected files start with ARTIFACT_SHIELD_ENCRYPTED.'']\<rparr>"

text \<open>The runs of the batch script on these inputs.\<close>

definition run_a :: "nat \<times> world" where
  "run_a = run sample_hashlib default_config salts repo_root (Some backup_a) passphrase_a
             manifest_a world_a"


definition run_keys :: "nat \<times> world" where
  "run_keys = run sample_hashlib default_config salts repo_root (Some backup_keys)
                passphrase_a manifest_keys world_keys"

section \<open>The cipher engine: loops, cuts and keys\<close>


lemma fold_update_length:
  "length (fold (\<lambda>i b. b[i := f (length b) i (b ! i)]) js buf) = length buf"
  by (induction js arbitrary: buf) simp_all

lemma fold_update_nth:
  "distinct js \<Longrightarrow> j < length buf \<Longrightarrow>
   fold (\<lambda>i b. b[i := f (length b) i (b ! i)]) js buf ! j =
     (if j \<in> set js then f (length buf) j (buf ! j) else buf ! j)"
proof (induction js arbitrary: buf)
  case Nil
  then show ?case by simp
next
  case (Cons a js)
  have neq: "j \<in> set js \<Longrightarrow> a \<noteq> j" using Cons.prems(1) by auto
  show ?case using Cons by (auto simp: nth_list_update dest: neq)
qed

lemma xor_forward_length: "length (xor_forward key buf) = length buf"
  unfolding xor_forward_def by (rule fold_update_length [where f = "\<lambda>n i x. x XOR key ! (i mod length key)"])

lemma xor_forward_nth:
  "j < length buf \<Longrightarrow> xor_forward key buf ! j = buf ! j XOR key ! (j mod length key)"
  unfolding xor_forward_def
  using fold_update_nth [where f = "\<lambda>n i x. x XOR key ! (i mod length key)" and js = "[0..<length buf]" and buf = buf and j = j]
  by simp

lemma xor_reverse_length: "length (xor_reverse key buf) = length buf"
  unfolding xor_reverse_def by (rule fold_update_length [where f = "\<lambda>n i x. x XOR key ! ((n - i - 1) mod length key)"])

lemma xor_reverse_nth:
  "j < length buf \<Longrightarrow>
   xor_reverse key buf ! j = buf ! j XOR key ! ((length buf - j - 1) mod length key)"
  unfolding xor_reverse_def
  using fold_update_nth [where f = "\<lambda>n i x. x XOR key ! ((n - i - 1) mod length key)" and js = "rev [0..<length buf]" and buf = buf and j = j]
  by simp

lemma xor_position_length: "length (xor_position buf) = length buf"
  unfolding xor_position_def by (rule fold_update_length [where f = "\<lambda>n i x. x XOR of_nat ((i + 1) mod 256)"])

lemma xor_position_nth:
  "j < length buf \<Longrightarrow> xor_position buf ! j = buf ! j XOR of_nat ((j + 1) mod 256)"
  unfolding xor_position_def
  using fold_update_nth [where f = "\<lambda>n i x. x XOR of_nat ((i + 1) mod 256)" and js = "[0..<length buf]" and buf = buf and j = j]
  by simp

lemmas layer_length = xor_forward_length xor_reverse_length xor_position_length
lemmas layer_nth = xor_forward_nth xor_reverse_nth xor_position_nth

lemma xor_cancel3: "((((((x::byte) XOR a) XOR b) XOR c) XOR c) XOR b) XOR a = x"
  by (simp add: bit.xor_cancel_left xor.assoc) 

lemma layers_inverse:
  "xor_forward key (xor_reverse key (xor_position
     (xor_position (xor_reverse key (xor_forward key buf))))) = buf"
  by (rule nth_equalityI) (simp_all add: layer_length layer_nth xor_cancel3)

lemma cut_at_sep:
  "\<not> sublist sep (m @ [colon]) \<Longrightarrow> cut (m @ sep @ r) = Some (m, r)"
proof (induction m)
  case Nil
  then show ?case by (simp add: sep_def)
next
  case (Cons x m)
  from Cons.prems have np: "\<not> prefix sep (x # m @ [colon])" and ns: "\<not> sublist sep (m @ [colon])"
    by (simp_all add: sublist_Cons_right)
  from np have "\<not> prefix sep (x # m @ sep @ r)"
    by (cases m) (auto simp: sep_def)
  with Cons.IH [OF ns] show ?case by simp
qed

lemma no_colon_no_sep: "colon \<notin> set m \<Longrightarrow> \<not> sublist sep (m @ [colon])"
proof (induction m)
  case Nil
  then show ?case by (simp add: sep_def sublist_Cons_right)
next
  case (Cons x m)
  then show ?case by (cases m) (auto simp: sep_def sublist_Cons_right)
qed

lemma ascii_utf8_valid: "list_all (\<lambda>b. b \<le> 0x7F) s \<Longrightarrow> utf8_valid s"
  by (induction s) simp_all

lemma hex_digit_ascii: "hex_digit b \<Longrightarrow> b \<le> 0x7F"
  unfolding hex_digit_def by (auto elim: order_trans)

lemma hex_digit_not_colon: "hex_digit b \<Longrightarrow> b \<noteq> colon"
  unfolding hex_digit_def colon_def by auto

lemma sep_version_text: "sep = ascii ''::'' \<and> version = ascii ''v1.0''"
  by (simp add: sep_def colon_def version_def ascii_def)

lemma cut_Some_append: "cut s = Some (a, r) \<Longrightarrow> s = a @ sep @ r"
proof (induction s arbitrary: a r)
  case Nil
  then show ?case by simp
next
  case (Cons x xs)
  show ?case
  proof (cases "prefix sep (x # xs)")
    case True
    with Cons.prems have "a = []" "r = drop (length sep) (x # xs)" by simp_all
    with True show ?thesis by (auto simp: prefix_def)
  next
    case False
    with Cons.prems obtain a' where c: "cut xs = Some (a', r)" and a: "a = x # a'"
      by (auto split: option.splits)
    from Cons.IH [OF c] a show ?thesis by simp
  qed
qed

lemma prefix_sep_shift:
  "prefix sep (x # m @ [colon]) \<Longrightarrow> prefix sep (x # m @ sep @ r)"
  by (cases m) (auto simp: sep_def)

lemma cut_leftmost: "cut s = Some (a, r) \<Longrightarrow> \<not> sublist sep (a @ [colon])"
proof (induction s arbitrary: a r)
  case Nil
  then show ?case by simp
next
  case (Cons x xs)
  show ?case
  proof (cases "prefix sep (x # xs)")
    case True
    with Cons.prems have "a = []" by simp
    then show ?thesis by (simp add: sep_def sublist_Cons_right)
  next
    case False
    with Cons.prems obtain a' where c: "cut xs = Some (a', r)" and a: "a = x # a'"
      by (auto split: option.splits)
    have xs: "xs = a' @ sep @ r" using cut_Some_append [OF c] .
    have "\<not> prefix sep (x # a' @ [colon])"
      using False prefix_sep_shift [of x a' r] xs by auto
    with Cons.IH [OF c] a show ?thesis by (simp add: sublist_Cons_right)
  qed
qed

lemma cut_sep_exists: "\<exists>a r'. cut (m @ sep @ r) = Some (a, r')"
proof (induction m)
  case Nil
  then show ?case by (simp add: sep_def)
next
  case (Cons x m)
  then show ?case by (auto split: option.splits)
qed

lemma hex_salt_facts:
  assumes "is_token_hex32 s"
  shows "utf8_valid s" and "\<not> sublist sep (s @ [colon])"
proof -
  from assms have h: "\<forall>b\<in>set s. hex_digit b" by (simp add: is_token_hex32_def list_all_iff)
  then have "list_all (\<lambda>b. b \<le> 0x7F) s" by (auto simp: list_all_iff dest: hex_digit_ascii)
  then show "utf8_valid s" by (rule ascii_utf8_valid)
  from h have "colon \<notin> set s" by (auto dest: hex_digit_not_colon)
  then show "\<not> sublist sep (s @ [colon])" by (rule no_colon_no_sep)
qed

lemma version_no_sep: "\<not> sublist sep (version @ [colon])"
  by (rule no_colon_no_sep) (simp add: version_def colon_def)

lemma split_package:
  assumes "\<not> sublist sep (m @ [colon])" "\<not> sublist sep (s @ [colon])"
  shows "split_max 3 (m @ sep @ version @ sep @ s @ sep @ c) = [m, version, s, c]"
  using assms version_no_sep by (simp add: numeral_3_eq_3 cut_at_sep)

lemma split_package_bad:
  assumes "sublist sep (m @ [colon])"
  shows "\<exists>a rest. split_max 3 (m @ sep @ r) = a # rest \<and> a \<noteq> m"
proof -
  obtain a r' where c: "cut (m @ sep @ r) = Some (a, r')" using cut_sep_exists by blast
  from cut_leftmost [OF c] assms have "a \<noteq> m" by auto
  with c show ?thesis by (simp add: numeral_3_eq_3)
qed

lemma decrypt_data_wrong_head:
  assumes "split_max 3 pkg = a # rest" "a \<noteq> encryption_marker cfg"
  shows "decrypt_data h cfg pkg k = None"
  using assms by (auto simp: decrypt_data_def split: list.splits)

lemma derive_length:
  "digest_size_ok h \<Longrightarrow> length (derive_encryption_key h k s) = 64"
  by (simp add: digest_size_ok_def derive_encryption_key_def Let_def)

lemma derive_nonempty: "digest_size_ok h \<Longrightarrow> derive_encryption_key h k s \<noteq> []"
  using derive_length [of h k s] by auto

lemma encrypt_data_Inr:
  assumes "digest_size_ok h"
  shows "encrypt_data h cfg s P k =
     Inr (encryption_marker cfg @ sep @ version @ sep @ s @ sep
          @ xor_position (xor_reverse (derive_encryption_key h k s)
              (xor_forward (derive_encryption_key h k s) P)))"
  using derive_nonempty [OF assms] by (simp add: encrypt_data_def Let_def)

lemma decrypt_package:
  assumes "digest_size_ok h" "is_token_hex32 s" "utf8_valid (encryption_marker cfg)"
    "\<not> sublist sep (encryption_marker cfg @ [colon])"
  shows "decrypt_data h cfg (encryption_marker cfg @ sep @ version @ sep @ s @ sep @ c) k =
     Some (xor_forward (derive_encryption_key h k s)
            (xor_reverse (derive_encryption_key h k s) (xor_position c)))"
  using assms(3) hex_salt_facts(1) [OF assms(2)] derive_nonempty [OF assms(1)]
  by (simp add: decrypt_data_def split_package [OF assms(4) hex_salt_facts(2) [OF assms(2)]] Let_def)

lemma recover_same_key:
  assumes "digest_size_ok h" "is_token_hex32 file_salt" "utf8_valid (encryption_marker cfg)"
  shows "recover h cfg file_salt P K K =
     (if sublist sep (encryption_marker cfg @ [colon]) then None else Some P)"
proof (cases "sublist sep (encryption_marker cfg @ [colon])")
  case True
  obtain a rest where "split_max 3 (encryption_marker cfg @ sep @ version @ sep @ file_salt @ sep
          @ xor_position (xor_reverse (derive_encryption_key h K file_salt)
              (xor_forward (derive_encryption_key h K file_salt) P))) = a # rest" "a \<noteq> encryption_marker cfg"
    using split_package_bad [OF True] by blast
  then show ?thesis using True
    by (simp add: recover_def encrypt_data_Inr [OF assms(1)] decrypt_data_wrong_head)
next
  case False
  then show ?thesis
    by (simp add: recover_def encrypt_data_Inr [OF assms(1)] decrypt_package [OF assms False]
        layers_inverse)
qed




lemma recover_two_keys:
  assumes "digest_size_ok h" "is_token_hex32 file_salt" "utf8_valid (encryption_marker cfg)"
    "\<not> sublist sep (encryption_marker cfg @ [colon])"
  shows "recover h cfg file_salt P K1 K2 =
     Some (map (\<lambda>i. P ! i XOR keystream (derive_encryption_key h K1 file_salt) (length P) i
                         XOR keystream (derive_encryption_key h K2 file_salt) (length P) i)
             [0..<length P])"
proof -
  let ?k1 = "derive_encryption_key h K1 file_salt"
  let ?k2 = "derive_encryption_key h K2 file_salt"
  have "xor_forward ?k2 (xor_reverse ?k2 (xor_position
          (xor_position (xor_reverse ?k1 (xor_forward ?k1 P))))) =
        map (\<lambda>i. P ! i XOR keystream ?k1 (length P) i XOR keystream ?k2 (length P) i) [0..<length P]"
    by (rule nth_equalityI) (simp_all add: layer_length layer_nth keystream_def ac_simps)
  then show ?thesis
    by (simp add: recover_def encrypt_data_Inr [OF assms(1)] decrypt_package [OF assms])
qed

lemma xor_xor_same_iff: "((x::byte) XOR a XOR b = x) = (a = b)"
  by (auto simp: bit_eq_iff bit_xor_iff)

lemma wrong_key_iff:
  assumes "digest_size_ok h" "is_token_hex32 file_salt" "utf8_valid (encryption_marker cfg)"
    "\<not> sublist sep (encryption_marker cfg @ [colon])"
  shows "(recover h cfg file_salt P K1 K2 = Some P) =
     (\<forall>i<length P. keystream (derive_encryption_key h K1 file_salt) (length P) i =
                    keystream (derive_encryption_key h K2 file_salt) (length P) i)"
proof -
  let ?f = "\<lambda>i. P ! i XOR keystream (derive_encryption_key h K1 file_salt) (length P) i
                         XOR keystream (derive_encryption_key h K2 file_salt) (length P) i"
  have "(map ?f [0..<length P] = P) = (\<forall>i<length P. ?f i = P ! i)"
  proof
    assume e: "map ?f [0..<length P] = P"
    show "\<forall>i<length P. ?f i = P ! i"
    proof (intro allI impI)
      fix i assume i: "i < length P"
      then have "map ?f [0..<length P] ! i = ?f i" by simp
      with e show "?f i = P ! i" by simp
    qed
  next
    assume "\<forall>i<length P. ?f i = P ! i"
    then show "map ?f [0..<length P] = P" by (intro nth_equalityI) simp_all
  qed
  also have "\<dots> = (\<forall>i<length P. keystream (derive_encryption_key h K1 file_salt) (length P) i =
                    keystream (derive_encryption_key h K2 file_salt) (length P) i)"
    by (simp only: xor_xor_same_iff)
  finally show ?thesis by (simp only: recover_two_keys [OF assms] option.inject)
qed

lemma keystream_single: "keystream key (Suc 0) 0 = 0"
  by (simp add: keystream_def)

lemma wrong_key_short:
  assumes "digest_size_ok h" "is_token_hex32 file_salt" "utf8_valid (encryption_marker cfg)"
    "\<not> sublist sep (encryption_marker cfg @ [colon])" "length P \<le> 1"
  shows "recover h cfg file_salt P K1 K2 = Some P"
proof -
  have "\<forall>i<length P. keystream (derive_encryption_key h K1 file_salt) (length P) i =
                    keystream (derive_encryption_key h K2 file_salt) (length P) i"
  proof (intro allI impI)
    fix i assume "i < length P"
    with assms(5) have "length P = 1" "i = 0" by auto
    then show "keystream (derive_encryption_key h K1 file_salt) (length P) i =
                    keystream (derive_encryption_key h K2 file_salt) (length P) i"
      by (simp add: keystream_single)
  qed
  then show ?thesis using wrong_key_iff [OF assms(1-4)] by blast
qed

lemma sample_digest_size: "digest_size_ok sample_hashlib"
  by (simp add: digest_size_ok_def sample_hashlib_def sample_digest_def)

lemma sample_salt_hex: "is_token_hex32 sample_salt"
  by (simp add: is_token_hex32_def sample_salt_def list_all_iff hex_digit_def)

lemma default_marker_valid: "utf8_valid (encryption_marker default_config)"
  by (simp add: default_config_def ascii_def)

lemma default_marker_no_sep: "\<not> sublist sep (encryption_marker default_config @ [colon])"
  by (rule no_colon_no_sep) (simp add: default_config_def ascii_def colon_def)

lemma colon_marker_valid: "utf8_valid (encryption_marker colon_config)"
  by (simp add: colon_config_def ascii_def)

lemma colon_marker_sep: "sublist sep (encryption_marker colon_config @ [colon])"
  by (simp add: colon_config_def ascii_def sep_def colon_def sublist_Cons_right)

lemma sample_digest_nth:
  "i < 64 \<Longrightarrow> sample_digest x ! i =
     of_nat i + 2 * (case x of [] \<Rightarrow> 0 | b # _ \<Rightarrow> b) + of_nat (length x)"
  by (simp add: sample_digest_def)

lemma sample_digest_length: "length (sample_digest x) = 64"
  by (simp add: sample_digest_def)

lemma sample_digest_first:
  "(case sample_digest x of [] \<Rightarrow> 0 | c # _ \<Rightarrow> c) =
     2 * (case x of [] \<Rightarrow> 0 | b # _ \<Rightarrow> b) + of_nat (length x)"
  by (simp add: sample_digest_def upt_rec [of 0])

lemma sample_key:
  "i < 64 \<Longrightarrow>
   derive_encryption_key sample_hashlib (b # K) s ! i =
     of_nat i + 8 * b + 4 * of_nat (length K + 3 + length s) + 192"
  by (simp add: derive_encryption_key_def sample_hashlib_def Let_def sample_digest_nth
      sample_digest_first sample_digest_length sep_def)

lemma key_a_bytes:
  "derive_encryption_key sample_hashlib passphrase_a sample_salt ! 0 = 88
   \<and> derive_encryption_key sample_hashlib passphrase_a sample_salt ! 10 = 98"
  by (simp add: passphrase_a_def ascii_def sample_key sample_salt_def)

lemma key_b_bytes:
  "derive_encryption_key sample_hashlib passphrase_b sample_salt ! 0 = 244
   \<and> derive_encryption_key sample_hashlib passphrase_b sample_salt ! 10 = 254"
  by (simp add: passphrase_b_def ascii_def sample_key sample_salt_def)

lemma sample_keys_differ:
  "derive_encryption_key sample_hashlib passphrase_a sample_salt
     \<noteq> derive_encryption_key sample_hashlib passphrase_b sample_salt"
proof
  assume "derive_encryption_key sample_hashlib passphrase_a sample_salt
            = derive_encryption_key sample_hashlib passphrase_b sample_salt"
  then have "derive_encryption_key sample_hashlib passphrase_a sample_salt ! 0
            = derive_encryption_key sample_hashlib passphrase_b sample_salt ! 0" by simp
  then show False by (simp add: key_a_bytes key_b_bytes)
qed

lemma sample_keystreams_differ:
  "keystream (derive_encryption_key sample_hashlib passphrase_a sample_salt) 11 0
     \<noteq> keystream (derive_encryption_key sample_hashlib passphrase_b sample_salt) 11 0"
  by (simp add: keystream_def derive_length [OF sample_digest_size] key_a_bytes key_b_bytes)

lemma passphrases_differ: "passphrase_a \<noteq> passphrase_b"
  by (simp add: passphrase_a_def passphrase_b_def ascii_def)

section \<open>Properties of the cipher engine\<close>

text \<open>
  C1 (round trip: decrypting the package of \<open>encrypt_data(P, K)\<close> under the same
  passphrase gives back \<open>P\<close>) is not what the code does for every configured marker.
  With the marker \<open>SHIELD::ENCRYPTED\<close>, the package of \<open>hello world\<close> is built, and
  decrypting it under the same passphrase returns \<open>None\<close>: the split cuts at the
  leftmost \<open>::\<close>, inside the marker, and the first field is no longer the marker.
\<close>

theorem round_trip_fails_on_separator_marker:
  "\<not> isl (encrypt_data sample_hashlib colon_config sample_salt (ascii ''hello world'')
           (ascii ''correct-horse-battery-staple12''))
   \<and> recover sample_hashlib colon_config sample_salt (ascii ''hello world'')
       (ascii ''correct-horse-battery-staple12'') (ascii ''correct-horse-battery-staple12'')
     = None"
  using recover_same_key [OF sample_digest_size sample_salt_hex colon_marker_valid,
      of "ascii ''hello world''" "ascii ''correct-horse-battery-staple12''"]
    colon_marker_sep encrypt_data_Inr [OF sample_digest_size]
  by simp

text \<open>
  C7 (wrong key), as the code has it. For a configured marker that the split leaves
  whole (the separator does not occur in the marker followed by a colon, as with the
  default marker), decrypting under \<open>K2\<close> what was encrypted under \<open>K1\<close> gives back \<open>P\<close>
  exactly when the two derived keys have the same keystream at every index of \<open>P\<close>; the
  cipher has no other check. For a plaintext of at most one byte the keystream is zero
  whatever the key, so every passphrase recovers it.
\<close>

theorem wrong_key:
  assumes "digest_size_ok h" "is_token_hex32 file_salt" "utf8_valid (encryption_marker cfg)"
    "\<not> sublist sep (encryption_marker cfg @ [colon])"
  shows "(recover h cfg file_salt P K1 K2 = Some P) =
           (\<forall>i<length P. keystream (derive_encryption_key h K1 file_salt) (length P) i =
                          keystream (derive_encryption_key h K2 file_salt) (length P) i)
         \<and> (length P \<le> 1 \<longrightarrow> recover h cfg file_salt P K1 K2 = Some P)"
  using wrong_key_iff [OF assms] wrong_key_short [OF assms] by blast

text \<open>
  At \<open>hello world\<close> the keys of the two passphrases differ in their keystream at index 0,
  and decrypting under the second passphrase does not give the plaintext back; at the one
  byte \<open>h\<close> it does.
\<close>

theorem wrong_key_witness:
  "digest_size_ok sample_hashlib \<and> is_token_hex32 sample_salt
   \<and> utf8_valid (encryption_marker default_config)
   \<and> \<not> sublist sep (encryption_marker default_config @ [colon])
   \<and> passphrase_a \<noteq> passphrase_b
   \<and> recover sample_hashlib default_config sample_salt (ascii ''hello world'')
        passphrase_a passphrase_b \<noteq> Some (ascii ''hello world'')
   \<and> recover sample_hashlib default_config sample_salt (ascii ''h'')
        passphrase_a passphrase_b = Some (ascii ''h'')"
proof -
  note w = wrong_key [OF sample_digest_size sample_salt_hex default_marker_valid
      default_marker_no_sep]
  have l: "length (ascii ''hello world'') = 11" by (simp add: ascii_def)
  have "\<not> (\<forall>i<length (ascii ''hello world'').
            keystream (derive_encryption_key sample_hashlib passphrase_a sample_salt)
              (length (ascii ''hello world'')) i =
            keystream (derive_encryption_key sample_hashlib passphrase_b sample_salt)
              (length (ascii ''hello world'')) i)"
    unfolding l using sample_keystreams_differ by (intro notI) (drule spec [of _ 0], simp)
  then have long: "recover sample_hashlib default_config sample_salt (ascii ''hello world'')
        passphrase_a passphrase_b \<noteq> Some (ascii ''hello world'')"
    using w [of "ascii ''hello world''" passphrase_a passphrase_b] by blast
  have short: "recover sample_hashlib default_config sample_salt (ascii ''h'')
        passphrase_a passphrase_b = Some (ascii ''h'')"
    using w [of "ascii ''h''" passphrase_a passphrase_b] by (simp add: ascii_def)
  show ?thesis
    using long short passphrases_differ sample_digest_size sample_salt_hex default_marker_valid
      default_marker_no_sep
    by blast
qed

text \<open>
  C7 as stated fails: the two passphrases differ and so do their keys, and yet the
  one-byte plaintext \<open>A\<close>, encrypted under the first, is recovered under the second.
\<close>

theorem wrong_key_counterexample:
  "passphrase_a \<noteq> passphrase_b
   \<and> derive_encryption_key sample_hashlib passphrase_a sample_salt
        \<noteq> derive_encryption_key sample_hashlib passphrase_b sample_salt
   \<and> recover sample_hashlib default_config sample_salt [0x41] passphrase_a passphrase_b
        = Some [0x41]"
  using wrong_key_short [OF sample_digest_size sample_salt_hex default_marker_valid
      default_marker_no_sep, of "[0x41]" passphrase_a passphrase_b]
    passphrases_differ sample_keys_differ
  by simp



section \<open>The file codec and the batch script: steps and runs\<close>

lemma suffix_tmp: "\<not> suffix ''.enc'' (p @ ''.enc.tmp'')"
  by (simp add: suffix_to_prefix)

lemma decrypt_file_tmp: "decrypt_file h cfg w (p @ ''.enc.tmp'') k = (False, w)"
  by (simp add: decrypt_file_def suffix_tmp)

lemma encrypt_file_fresh:
  assumes "digest_size_ok h" "\<not> should_exclude cfg p" "files w p = Some c"
    "\<not> sublist (encryption_marker cfg) (take 100 c)" "\<not> delete_original_after_encrypt cfg"
  shows "encrypt_file h cfg th w p K =
     (True, w\<lparr>draws := draws w + 1,
               files := (files w)(p @ ''.enc'' \<mapsto> projr (encrypt_data h cfg (th (draws w)) c K))\<rparr>)"
  using assms derive_nonempty [OF assms(1)]
  by (simp add: encrypt_file_def is_encrypted_def encrypt_data_Inr [OF assms(1)] Let_def)

lemma encrypt_file_excluded:
  "should_exclude cfg p \<Longrightarrow> encrypt_file h cfg th w p K = (False, w)"
  by (simp add: encrypt_file_def)

lemma encrypt_loop_missing:
  "files w (join root p) = None \<Longrightarrow>
   encrypt_loop h cfg th root K (p # ps) w oc = encrypt_loop h cfg th root K ps w oc"
  by simp

lemma encrypt_loop_step:
  assumes "digest_size_ok h" "\<not> delete_original_after_encrypt cfg"
    "files w (join root p) \<noteq> None" "\<not> should_exclude cfg (join root p)"
    "\<not> sublist (encryption_marker cfg) (take 100 (the (files w (join root p))))"
  shows "encrypt_loop h cfg th root K (p # ps) w oc =
     encrypt_loop h cfg th root K ps
       (w\<lparr>tmpdir := (tmpdir w)(name p \<mapsto> the (files w (join root p))), draws := draws w + 1,
          files := ((files w)(join root p @ ''.enc'' \<mapsto>
                       projr (encrypt_data h cfg (th (draws w)) (the (files w (join root p))) K)))
                    (join root p := None),
          staged := staged w @ [Add (join root p @ ''.enc''), Rm (join root p)]\<rparr>)
       (oc @ [(join root p, name p)])"
proof -
  from assms(3) obtain c where c: "files w (join root p) = Some c" by auto
  let ?w1 = "w\<lparr>tmpdir := (tmpdir w)(name p \<mapsto> c)\<rparr>"
  have e: "encrypt_file h cfg th ?w1 (join root p) K =
     (True, ?w1\<lparr>draws := draws ?w1 + 1,
               files := (files ?w1)(join root p @ ''.enc'' \<mapsto> projr (encrypt_data h cfg (th (draws ?w1)) c K))\<rparr>)"
    by (rule encrypt_file_fresh) (use assms c in simp_all)
  show ?thesis
    using c by (simp add: e Let_def git_add_def git_rm_f_def)
qed

lemma encrypt_loop_excluded:
  assumes "files w (join root p) \<noteq> None" "should_exclude cfg (join root p)"
  shows "encrypt_loop h cfg th root K (p # ps) w oc =
     (w\<lparr>tmpdir := (tmpdir w)(name p \<mapsto> the (files w (join root p)))\<rparr>,
      oc @ [(join root p, name p)], True)"
  using assms by (auto simp: encrypt_file_excluded Let_def)

lemmas eval_defs = repo_root_def join_def name_def relative_to_def
  should_exclude_def default_config_def sublist_Cons_right suffix_to_prefix ascii_def
  empty_world_def

lemma passphrase_a_nonempty: "passphrase_a \<noteq> []"
  by (simp add: passphrase_a_def ascii_def)

lemma batch_config: "default_config\<lparr>delete_original_after_encrypt := False, dry_run := False\<rparr> = default_config"
  by (simp add: default_config_def)

lemma verify_loop_skip:
  "backup (relative_to root full) = None \<Longrightarrow>
   verify_loop h cfg root backup K ((full, tmp) # rest) w = verify_loop h cfg root backup K rest w"
  by simp

lemma verify_loop_stop:
  assumes "backup (relative_to root full) \<noteq> None" "files w (full @ ''.enc'') \<noteq> None"
  shows "verify_loop h cfg root backup K ((full, tmp) # rest) w =
     (w\<lparr>files := (files w)(full @ ''.enc.tmp'' \<mapsto> the (files w (full @ ''.enc'')))\<rparr>, Failed)"
  using assms decrypt_file_tmp [of h cfg _ full K] by (auto simp: Let_def)

lemmas run_simps = run_def Let_def passphrase_a_nonempty batch_config encrypt_loop_step
  encrypt_loop_excluded encrypt_loop_missing verify_loop_skip verify_loop_stop
  sample_digest_size salts_def eval_defs rollback_def git_reset_def git_commit_def
  git_push_def cleanup_def

lemma run_a_value:
  "run_a =
     (1, world_a\<lparr>draws := 1, pushed := True,
           commits := [[Add ''/repo/secrets/a.txt.enc'', Rm ''/repo/secrets/a.txt'']],
           files := [''/repo/secrets/a.txt.enc'' \<mapsto>
                        projr (encrypt_data sample_hashlib default_config sample_salt
                                 (ascii ''hello world'') passphrase_a),
                     ''/repo/secrets/a.txt.enc.tmp'' \<mapsto>
                        projr (encrypt_data sample_hashlib default_config sample_salt
                                 (ascii ''hello world'') passphrase_a)]\<rparr>)"
  by (simp add: run_a_def manifest_a_def world_a_def backup_a_def run_simps
      del: encrypt_loop.simps(2) verify_loop.simps(2))


lemma run_keys_value:
  "run_keys =
     (1, world_keys\<lparr>draws := 2,
           files := [''/repo/backups/key.bak'' \<mapsto> ascii ''OLD'',
              ''/repo/prod/key.txt.enc'' \<mapsto>
                 projr (encrypt_data sample_hashlib default_config sample_salt (ascii ''PROD'')
                          passphrase_a),
              ''/repo/test/key.txt.enc'' \<mapsto>
                 projr (encrypt_data sample_hashlib default_config sample_salt (ascii ''TEST'')
                          passphrase_a),
              ''/repo/prod/key.txt'' \<mapsto> ascii ''TEST'',
              ''/repo/test/key.txt'' \<mapsto> ascii ''TEST'']\<rparr>)"
  by (simp add: run_keys_def manifest_keys_def world_keys_def backup_keys_def run_simps
      fun_upd_twist del: encrypt_loop.simps(2) verify_loop.simps(2))

lemma run_nothing_staged:
  "run sample_hashlib default_config salts repo_root (Some backup_a) passphrase_a
     [\<lparr>path = ''ghost.txt'', sensitive = True\<rparr>] world_a = (1, world_a)"
  by (simp add: world_a_def run_simps del: encrypt_loop.simps(2) verify_loop.simps(2))

lemma decrypt_file_directory_stem:
  "stem ''/repo/x/..enc'' = ''.'' \<and> \<not> fst (decrypt_file h cfg w ''/repo/x/..enc'' K)"
  by (simp add: decrypt_file_def stem_def split: option.splits)

lemma original_path_plain: "original_path ''/repo/secrets/a.txt.enc'' = ''/repo/secrets/a.txt''"
  by (simp add: original_path_def stem_def)

lemma encrypt_loop_append:
  "encrypt_loop h cfg th root K (xs @ ys) w oc =
     (case encrypt_loop h cfg th root K xs w oc of
        (w', oc', failed) \<Rightarrow>
          if failed then (w', oc', True) else encrypt_loop h cfg th root K ys w' oc')"
proof (induction xs arbitrary: w oc)
  case Nil
  then show ?case by simp
next
  case (Cons p ps)
  show ?case
    by (simp add: Cons.IH Let_def split: option.splits prod.splits)
qed

lemma decrypt_artifact_a:
  "decrypt_data sample_hashlib default_config
     (projr (encrypt_data sample_hashlib default_config sample_salt (ascii ''hello world'')
               passphrase_a)) passphrase_a = Some (ascii ''hello world'')"
  using recover_same_key [OF sample_digest_size sample_salt_hex default_marker_valid,
      of "ascii ''hello world''" passphrase_a] default_marker_no_sep
  by (simp add: recover_def encrypt_data_Inr [OF sample_digest_size])



lemma encrypt_file_marked:
  assumes "\<not> should_exclude cfg file_path" "files w file_path = Some content"
    "sublist (encryption_marker cfg) (take 100 content)"
  shows "encrypt_file h cfg th w file_path K = (True, w)"
  using assms by (simp add: encrypt_file_def is_encrypted_def)

lemma marked_header:
  "sublist (encryption_marker default_config)
     (take 100 (encryption_marker default_config @ sep @ version))"
  by (simp add: default_config_def ascii_def sep_def version_def)

lemma not_excluded_artifact: "\<not> should_exclude default_config ''/repo/secrets/a.txt.enc''"
  by (simp add: eval_defs)

lemma excluded_artifact: "should_exclude default_config ''/repo/backups/a.txt.enc''"
  by (simp add: eval_defs)

lemma world_marked_files:
  "files world_marked ''/repo/secrets/a.txt.enc'' = Some (encryption_marker default_config @ sep @ version)"
  "files world_marked ''/repo/backups/a.txt.enc'' = Some (encryption_marker default_config @ sep @ version)"
  "files world_marked ''/repo/secrets/a.txt'' = None"
  "files world_marked ''/repo/secrets/a.txt.enc.enc'' = None"
  by (simp_all add: world_marked_def empty_world_def)

lemma not_excluded_doc: "\<not> should_exclude default_config ''/repo/docs/shield.md''"
  by (simp add: eval_defs)

lemma doc_content:
  "files world_marked ''/repo/docs/shield.md'' =
     Some (ascii ''Protected files start with '' @ encryption_marker default_config @ ascii ''.'')"
  by (simp add: world_marked_def empty_world_def default_config_def ascii_def)

lemma doc_no_package:
  "decrypt_data sample_hashlib default_config
     (ascii ''Protected files start with ARTIFACT_SHIELD_ENCRYPTED.'') passphrase_a = None"
  by (simp add: decrypt_data_def ascii_def numeral_3_eq_3 sep_def colon_def)

section \<open>Properties of the file codec\<close>

text \<open>
  C8 (idempotent encrypt), as the code has it. For every file that \<open>should_exclude\<close> does
  not exclude and whose first 100 bytes contain the configured marker, \<open>encrypt_file\<close>
  returns true and leaves every file as it was: the file keeps its bytes, no \<open>.enc\<close>
  artifact is written, and calling it again does the same.
\<close>

theorem idempotent_encrypt:
  assumes "\<not> should_exclude cfg file_path" and "files w file_path = Some content"
    and "sublist (encryption_marker cfg) (take 100 content)"
  shows "fst (encrypt_file h cfg th w file_path K)
         \<and> files (snd (encrypt_file h cfg th w file_path K)) = files w
         \<and> files (snd (encrypt_file h cfg th w file_path K)) file_path = Some content
         \<and> files (snd (encrypt_file h cfg th w file_path K)) (file_path @ ''.enc'')
             = files w (file_path @ ''.enc'')
         \<and> encrypt_file h cfg th (snd (encrypt_file h cfg th w file_path K)) file_path K
             = encrypt_file h cfg th w file_path K"
  using assms by (simp add: encrypt_file_marked)

theorem idempotent_encrypt_witness:
  "\<not> should_exclude default_config ''/repo/secrets/a.txt.enc''
   \<and> sublist (encryption_marker default_config)
        (take 100 (encryption_marker default_config @ sep @ version))
   \<and> encrypt_file sample_hashlib default_config salts world_marked
        ''/repo/secrets/a.txt.enc'' passphrase_a = (True, world_marked)
   \<and> files world_marked ''/repo/secrets/a.txt.enc.enc'' = None"
  using idempotent_encrypt [OF not_excluded_artifact world_marked_files(1) marked_header,
      of sample_hashlib salts passphrase_a]
    not_excluded_artifact marked_header world_marked_files(4)
  by (simp add: prod_eq_iff encrypt_file_marked [OF not_excluded_artifact world_marked_files(1) marked_header])

text \<open>
  C8 as stated fails for a file under an excluded path: the exclusion test comes first,
  and an artifact under \<open>backups\<close> gets the answer false.
\<close>

theorem idempotent_encrypt_counterexample:
  "files world_marked ''/repo/backups/a.txt.enc''
     = Some (encryption_marker default_config @ sep @ version)
   \<and> sublist (encryption_marker default_config)
        (take 100 (encryption_marker default_config @ sep @ version))
   \<and> fst (encrypt_file sample_hashlib default_config salts world_marked
             ''/repo/backups/a.txt.enc'' passphrase_a) = False"
  using marked_header world_marked_files(2) excluded_artifact
  by (simp add: encrypt_file_excluded)

text \<open>
  C10 (marker false positive). For every file that is not excluded and holds the marker
  anywhere within its first 100 bytes, whatever stands before and after it,
  \<open>is_encrypted\<close> answers true and \<open>encrypt_file\<close> returns true without touching the
  file, which stays on disk as it was. The witness is a document that quotes the marker
  and is no package at all.
\<close>

theorem marker_false_positive:
  assumes "\<not> should_exclude cfg file_path"
    and "files w file_path = Some (before @ encryption_marker cfg @ after)"
    and "length before + length (encryption_marker cfg) \<le> 100"
  shows "is_encrypted cfg w file_path
         \<and> encrypt_file h cfg th w file_path K = (True, w)
         \<and> files (snd (encrypt_file h cfg th w file_path K)) file_path
             = Some (before @ encryption_marker cfg @ after)"
proof -
  have t: "take 100 (before @ encryption_marker cfg @ after) =
          before @ encryption_marker cfg
            @ take (100 - (length before + length (encryption_marker cfg))) after"
    using assms(3) by simp
  have s: "sublist (encryption_marker cfg) (take 100 (before @ encryption_marker cfg @ after))"
    unfolding t by (rule sublist_appendI)
  show ?thesis
    using assms(2) s encrypt_file_marked [OF assms(1,2) s] by (simp add: is_encrypted_def)
qed

theorem marker_false_positive_witness:
  "\<not> should_exclude default_config ''/repo/docs/shield.md''
   \<and> files world_marked ''/repo/docs/shield.md'' =
       Some (ascii ''Protected files start with ARTIFACT_SHIELD_ENCRYPTED.'')
   \<and> decrypt_data sample_hashlib default_config
        (ascii ''Protected files start with ARTIFACT_SHIELD_ENCRYPTED.'') passphrase_a = None
   \<and> encrypt_file sample_hashlib default_config salts world_marked ''/repo/docs/shield.md''
        passphrase_a = (True, world_marked)"
proof -
  have l: "length (ascii ''Protected files start with '') + length (encryption_marker default_config) \<le> 100"
    by (simp add: ascii_def default_config_def)
  have c: "files world_marked ''/repo/docs/shield.md'' =
       Some (ascii ''Protected files start with ARTIFACT_SHIELD_ENCRYPTED.'')"
    by (simp add: world_marked_def empty_world_def)
  show ?thesis
    using marker_false_positive [OF not_excluded_doc doc_content l, of sample_hashlib salts passphrase_a]
      not_excluded_doc c doc_no_package
    by simp
qed

section \<open>Properties of the batch script\<close>

text \<open>
  C2 (batch atomicity) is not what the code does when two entries share a file name. The
  safety store is keyed by \<open>p.name\<close>, so the copy of \<open>test/key.txt\<close> replaces the copy of
  \<open>prod/key.txt\<close>; when the third entry fails, nothing is committed and nothing is left
  staged, but \<open>prod/key.txt\<close> is restored with the bytes of \<open>test/key.txt\<close>.
\<close>

theorem rollback_restores_other_file:
  "fst run_keys = 1
   \<and> commits (snd run_keys) = [] \<and> staged (snd run_keys) = []
   \<and> files world_keys ''/repo/prod/key.txt'' = Some (ascii ''PROD'')
   \<and> files (snd run_keys) ''/repo/prod/key.txt'' = Some (ascii ''TEST'')"
  by (simp add: run_keys_value) (simp add: world_keys_def empty_world_def)

text \<open>
  C3 (verification closure) is not what the code does. On one sensitive file and its
  exact snapshot the batch commits and pushes, the committed artifact is the package that
  \<open>encrypt_data\<close> built and decrypts to the snapshot's bytes, and still the run exits
  with code 1: verification hands \<open>decrypt_file\<close> a copy whose name ends in \<open>.tmp\<close>, which
  \<open>decrypt_file\<close> refuses.
\<close>

theorem verification_rejects_intact_artifact:
  "fst run_a = 1
   \<and> pushed (snd run_a)
   \<and> commits (snd run_a) = [[Add ''/repo/secrets/a.txt.enc'', Rm ''/repo/secrets/a.txt'']]
   \<and> files (snd run_a) ''/repo/secrets/a.txt.enc'' =
        Some (projr (encrypt_data sample_hashlib default_config sample_salt
                       (ascii ''hello world'') passphrase_a))
   \<and> decrypt_data sample_hashlib default_config
        (projr (encrypt_data sample_hashlib default_config sample_salt
                  (ascii ''hello world'') passphrase_a)) passphrase_a
      = backup_a ''secrets/a.txt''"
  by (simp add: run_a_value decrypt_artifact_a) (simp add: world_a_def empty_world_def backup_a_def)

text \<open>
  C4 (missing source file), as the code has it. When the loop reaches an entry whose
  source file does not exist, the entry is skipped: the loop goes on with the entries
  after it, in the world and with the \<open>orig_copies\<close> it had, and the flag is not set.
\<close>

theorem missing_file_skipped:
  assumes "encrypt_loop h cfg th root K before w oc = (w', oc', False)"
    and "files w' (join root p) = None"
  shows "encrypt_loop h cfg th root K (before @ p # after) w oc =
           encrypt_loop h cfg th root K after w' oc'"
  using assms by (simp add: encrypt_loop_append)

theorem missing_file_skipped_witness:
  "encrypt_loop sample_hashlib default_config salts repo_root passphrase_a [] world_a []
     = (world_a, [], False)
   \<and> files world_a (join repo_root ''ghost.txt'') = None
   \<and> encrypt_loop sample_hashlib default_config salts repo_root passphrase_a
        (map path manifest_ghost) world_a [] =
      encrypt_loop sample_hashlib default_config salts repo_root passphrase_a
        [''secrets/a.txt''] world_a []"
proof -
  have a: "encrypt_loop sample_hashlib default_config salts repo_root passphrase_a [] world_a []
     = (world_a, [], False)" by simp
  have b: "files world_a (join repo_root ''ghost.txt'') = None"
    by (simp add: world_a_def eval_defs)
  show ?thesis
    using missing_file_skipped [OF a b, of "[''secrets/a.txt'']"] a b
    by (simp add: manifest_ghost_def)
qed

text \<open>
  C4 as stated fails: the manifest names a file that does not exist and then
  \<open>secrets/a.txt\<close>; the batch is not marked failed, and the later entry is encrypted and
  staged.
\<close>

theorem missing_file_counterexample:
  "files world_a (join repo_root ''ghost.txt'') = None
   \<and> \<not> snd (snd (encrypt_loop sample_hashlib default_config salts repo_root passphrase_a
                    (map path manifest_ghost) world_a []))
   \<and> staged (fst (encrypt_loop sample_hashlib default_config salts repo_root passphrase_a
                    (map path manifest_ghost) world_a []))
      = [Add ''/repo/secrets/a.txt.enc'', Rm ''/repo/secrets/a.txt'']"
  by (simp add: manifest_ghost_def world_a_def encrypt_loop_step encrypt_loop_missing
      sample_digest_size salts_def eval_defs del: encrypt_loop.simps(2))




end
